theory Spec2Isabelle
  imports Main "HOL-Library.AList" "HOL-Library.Sublist"
begin

section \<open>Values and the object heap\<close>

text \<open>
  The functions of \<^verbatim>\<open>src/index.js\<close> work on JavaScript values. A value is a
  primitive or a reference to an object; objects have an identity and live in a heap.
  The heap is a list of objects, the address of an object is its position, and a new
  object is put at the end. Nothing is ever removed.

  A number is only ever compared (\<^verbatim>\<open>===\<close>) or tested for truth by the functions
  modelled here, so a number is \<open>NaN\<close> or a finite value.

  What the model leaves out: a property is an own data property with a string key,
  enumerable (no accessors, no symbols); the own properties of one object are all
  writable or all read-only (see \<open>read_only\<close>). Nothing is read
  from a prototype, so a missing key reads as \<^verbatim>\<open>undefined\<close>; of what an object
  inherits only the setter of \<^verbatim>\<open>__proto__\<close> is modelled (see \<open>assign\<close>). Arrays
  are dense and have no other properties. The file is a module, so its code is
  strict.
\<close>

type_synonym ref = nat

datatype number = NaN | Fin int

datatype val =
    Undefined
  | Null
  | Bool bool
  | Number number
  | Str string
  | Ref ref

text \<open>
  The class of an object that is none of the six kinds that \<^verbatim>\<open>deepCopy\<close> clones
  and no function. \<^verbatim>\<open>Object.prototype.toString\<close> reports the wrapper objects
  \<^verbatim>\<open>new String(..)\<close>, \<^verbatim>\<open>new Number(..)\<close> and \<^verbatim>\<open>new Boolean(..)\<close> under the
  names of the primitives. Every other class has a name that is no case of the
  \<^verbatim>\<open>switch\<close> of \<^verbatim>\<open>deepCopy\<close> and of \<^verbatim>\<open>isObjectEqual\<close>; the code only ever
  tests two such names for equality, so these classes are numbered. A DOM element
  (\<^verbatim>\<open>"element"\<close>) is an object of such a class. No object of the model reports,
  through \<^verbatim>\<open>Symbol.toStringTag\<close>, a name of the \<^verbatim>\<open>switch\<close> that is not its own.
\<close>

datatype cls = StringObject | NumberObject | BooleanObject | Class nat

text \<open>The prototypes, other than \<^verbatim>\<open>Object.prototype\<close>, that an object can have.\<close>

datatype proto =
    ArrayProto | MapProto | SetProto | RegExpProto | DateProto | FunctionProto
  | ClassProto cls

text \<open>
  The objects: the six kinds that \<^verbatim>\<open>deepCopy\<close> clones, functions, and every other
  object (\<open>Opaque\<close>, with its class and its own properties). A record holds its own
  properties in the order of \<^verbatim>\<open>Object.keys\<close>; a map its entries and a set its
  elements in insertion order; a regular expression its source and flags; a date its
  time value.

  \<open>Shell\<close> is the ordinary object that \<^verbatim>\<open>Object.create\<close> makes from a prototype
  other than \<^verbatim>\<open>Object.prototype\<close> and a list of own properties: it has none of
  the internal data of an array, a map or a set. Shells only come out of
  \<^verbatim>\<open>deepCopy1\<close>; they are no values of the data model that \<^verbatim>\<open>deepCopy\<close> and
  \<^verbatim>\<open>isObjectEqual\<close> are specified on.

  \<open>ReadOnly ob\<close> is the object \<open>ob\<close> with every own property read-only: a frozen
  object, or one made by \<^verbatim>\<open>Object.create\<close> from read-only properties. \<open>body\<close>
  is the object without the mark; reading does not depend on the mark. The own
  properties of a \<^verbatim>\<open>String\<close> wrapper, its indices and its \<^verbatim>\<open>length\<close>, are
  read-only without a mark.
\<close>

datatype obj =
    Array "val list"
  | Object "(string \<times> val) list"
  | Map "(val \<times> val) list"
  | Set "val list"
  | RegExp string string
  | Date number
  | Function
  | Opaque cls "(string \<times> val) list"
  | Shell proto "(string \<times> val) list"
  | ReadOnly obj

fun body :: "obj \<Rightarrow> obj" where
  "body (ReadOnly ob) = body ob"
| "body ob = ob"

fun read_only :: "obj \<Rightarrow> bool" where
  "read_only (ReadOnly ob) = True"
| "read_only (Opaque StringObject ps) = True"
| "read_only ob = False"

type_synonym heap = "obj list"

text \<open>
  Reading an address and allocating. An address outside the heap stands for no object
  of the program; it reads as an object of an unknown class. The heaps of the theorems
  are closed (see below) and hold no such address.
\<close>

definition get :: "heap \<Rightarrow> ref \<Rightarrow> obj" where
  "get h r = (if r < length h then h ! r else Opaque (Class 0) [])"

definition alloc :: "heap \<Rightarrow> obj \<Rightarrow> ref \<times> heap" where
  "alloc h ob = (length h, h @ [ob])"

text \<open>Reading the parts of the object a value refers to.\<close>

definition elems :: "heap \<Rightarrow> val \<Rightarrow> val list" where
  "elems h v = (case v of Ref r \<Rightarrow>
     (case body (get h r) of Array vs \<Rightarrow> vs | Set vs \<Rightarrow> vs | _ \<Rightarrow> []) | _ \<Rightarrow> [])"

definition props :: "heap \<Rightarrow> val \<Rightarrow> (string \<times> val) list" where
  "props h v = (case v of Ref r \<Rightarrow>
     (case body (get h r) of Object ps \<Rightarrow> ps | Opaque t ps \<Rightarrow> ps | Shell t ps \<Rightarrow> ps | _ \<Rightarrow> [])
   | _ \<Rightarrow> [])"

text \<open>\<^verbatim>\<open>Object.keys(val)\<close> and \<^verbatim>\<open>val[k]\<close>; a missing property reads as \<^verbatim>\<open>undefined\<close>.\<close>

definition keys :: "heap \<Rightarrow> val \<Rightarrow> string list" where
  "keys h v = map fst (props h v)"

definition lookup :: "(string \<times> val) list \<Rightarrow> string \<Rightarrow> val" where
  "lookup ps k = (case map_of ps k of None \<Rightarrow> Undefined | Some x \<Rightarrow> x)"

definition getProp :: "heap \<Rightarrow> val \<Rightarrow> string \<Rightarrow> val" where
  "getProp h v k = lookup (props h v) k"

text \<open>\<^verbatim>\<open>xs[i]\<close>, which is \<^verbatim>\<open>undefined\<close> out of range.\<close>

definition at :: "val list \<Rightarrow> nat \<Rightarrow> val" where
  "at xs i = (if i < length xs then xs ! i else Undefined)"

text \<open>
  \<^verbatim>\<open>entries()\<close> of a map yields its pairs, of a set the pair \<open>(v, v)\<close> for each
  element; \<^verbatim>\<open>size\<close> is their number.
\<close>

definition entries :: "heap \<Rightarrow> val \<Rightarrow> (val \<times> val) list" where
  "entries h v = (case v of Ref r \<Rightarrow>
     (case body (get h r) of Map es \<Rightarrow> es | Set vs \<Rightarrow> map (\<lambda>x. (x, x)) vs | _ \<Rightarrow> []) | _ \<Rightarrow> [])"

definition size_of :: "heap \<Rightarrow> val \<Rightarrow> nat" where
  "size_of h v = length (entries h v)"

definition time_of :: "heap \<Rightarrow> val \<Rightarrow> number" where
  "time_of h v = (case v of Ref r \<Rightarrow> (case body (get h r) of Date t \<Rightarrow> t | _ \<Rightarrow> NaN) | _ \<Rightarrow> NaN)"

definition source_of :: "heap \<Rightarrow> val \<Rightarrow> string" where
  "source_of h v =
     (case v of Ref r \<Rightarrow> (case body (get h r) of RegExp s f \<Rightarrow> s | _ \<Rightarrow> []) | _ \<Rightarrow> [])"

definition flags_of :: "heap \<Rightarrow> val \<Rightarrow> string" where
  "flags_of h v =
     (case v of Ref r \<Rightarrow> (case body (get h r) of RegExp s f \<Rightarrow> f | _ \<Rightarrow> []) | _ \<Rightarrow> [])"

text \<open>\<^verbatim>\<open>regexp.toString()\<close>: the source between slashes, then the flags.\<close>

definition toString :: "heap \<Rightarrow> val \<Rightarrow> string" where
  "toString h v = ''/'' @ source_of h v @ ''/'' @ flags_of h v"

text \<open>
  The assignment \<^verbatim>\<open>ob[k] = c\<close> on an ordinary object whose properties are
  writable. An own property keeps its place and gets the value; a new key goes to
  the end. The key \<^verbatim>\<open>__proto__\<close> is the exception: when it is no own property
  the assignment goes to the setter that every object inherits from
  \<^verbatim>\<open>Object.prototype\<close>, and no property is made (the setter replaces the
  prototype when \<open>c\<close> is an object or \<^verbatim>\<open>null\<close>, which the model does not record).
\<close>

definition assign :: "(string \<times> val) list \<Rightarrow> string \<Rightarrow> val \<Rightarrow> (string \<times> val) list" where
  "assign ps k c =
     (if k = ''__proto__'' \<and> k \<notin> set (map fst ps) then ps else AList.update k c ps)"

text \<open>
  Writing into the object at an address (the object a clone is being built in):
  the next element of an array (\<^verbatim>\<open>map\<close> fills the indices in order),
  \<^verbatim>\<open>ob[k] = c\<close> on a record or a shell, \<^verbatim>\<open>set(k, c)\<close> on a map, \<^verbatim>\<open>add(c)\<close>
  on a set. A key or an element that is there keeps its place; a new one goes to the
  end.
\<close>

definition set_add :: "val list \<Rightarrow> val \<Rightarrow> val list" where
  "set_add vs v = (if v \<in> set vs then vs else vs @ [v])"

definition put :: "obj \<Rightarrow> val \<Rightarrow> val \<Rightarrow> obj" where
  "put ob k c = (case ob of
       Array vs \<Rightarrow> Array (vs @ [c])
     | Object ps \<Rightarrow> (case k of Str s \<Rightarrow> Object (assign ps s c) | _ \<Rightarrow> ob)
     | Opaque t ps \<Rightarrow> (case k of Str s \<Rightarrow> Opaque t (assign ps s c) | _ \<Rightarrow> ob)
     | Shell t ps \<Rightarrow> (case k of Str s \<Rightarrow> Shell t (assign ps s c) | _ \<Rightarrow> ob)
     | Map es \<Rightarrow> Map (AList.update k c es)
     | Set vs \<Rightarrow> Set (set_add vs c)
     | _ \<Rightarrow> ob)"

definition store :: "heap \<Rightarrow> ref \<Rightarrow> val \<Rightarrow> val \<Rightarrow> heap" where
  "store h a k c = h[a := put (get h a) k c]"

section \<open>Type tags\<close>

text \<open>
  \<^verbatim>\<open>mTypeof\<close> returns the class name of \<^verbatim>\<open>Object.prototype.toString\<close> in lower
  case. The names are the twelve cases of the \<^verbatim>\<open>switch\<close> of \<^verbatim>\<open>deepCopy\<close> plus
  the names of all other classes; a wrapper object has the name of its primitive.

  A shell is outside the domain of the model of \<^verbatim>\<open>mTypeof\<close>: the code gives the
  shell of an array the name \<^verbatim>\<open>"object"\<close> and the shell of a map or a set the
  name \<^verbatim>\<open>"map"\<close> or \<^verbatim>\<open>"set"\<close>, on which \<^verbatim>\<open>deepCopy\<close> and
  \<^verbatim>\<open>isObjectEqual\<close> call methods that throw. The model gives a shell a tag of its
  own, \<open>TShell\<close>, on which both functions take their default branch; the
  theorems that say what the two functions return on an object ask for an object with
  another tag.
\<close>

datatype tag =
    TArray | TObject | TMap | TSet | TRegExp | TDate | TFunction
  | TString | TNumber | TBoolean | TNull | TUndefined
  | TOther nat
  | TShell proto

definition cls_tag :: "cls \<Rightarrow> tag" where
  "cls_tag t = (case t of
       StringObject \<Rightarrow> TString
     | NumberObject \<Rightarrow> TNumber
     | BooleanObject \<Rightarrow> TBoolean
     | Class n \<Rightarrow> TOther n)"

fun tag_of :: "obj \<Rightarrow> tag" where
  "tag_of (Array vs) = TArray"
| "tag_of (Object ps) = TObject"
| "tag_of (Map es) = TMap"
| "tag_of (Set vs) = TSet"
| "tag_of (RegExp s f) = TRegExp"
| "tag_of (Date t) = TDate"
| "tag_of Function = TFunction"
| "tag_of (Opaque t ps) = cls_tag t"
| "tag_of (Shell t ps) = TShell t"
| "tag_of (ReadOnly ob) = tag_of ob"

definition mTypeof :: "heap \<Rightarrow> val \<Rightarrow> tag" where
  "mTypeof h v = (case v of
       Undefined \<Rightarrow> TUndefined
     | Null \<Rightarrow> TNull
     | Bool b \<Rightarrow> TBoolean
     | Number x \<Rightarrow> TNumber
     | Str s \<Rightarrow> TString
     | Ref r \<Rightarrow> tag_of (get h r))"

section \<open>deepCopy: the clone by type dispatch\<close>

text \<open>
  The loop shared by the four composite cases: for each item in turn, read the child
  value, clone it with \<open>f\<close> in the current heap, and write the clone into the object
  at address \<open>a\<close>. The result is \<open>None\<close> when a clone of a child does not return.
\<close>

fun copy_loop ::
  "(heap \<Rightarrow> val \<Rightarrow> (heap \<times> val) option) \<Rightarrow> (heap \<Rightarrow> 'k \<Rightarrow> val) \<Rightarrow> ('k \<Rightarrow> val) \<Rightarrow> ref \<Rightarrow>
   heap \<Rightarrow> 'k list \<Rightarrow> heap option" where
  "copy_loop f rd key a h [] = Some h"
| "copy_loop f rd key a h (x # xs) =
     (case f h (rd h x) of
        None \<Rightarrow> None
      | Some (h1, c) \<Rightarrow> copy_loop f rd key a (store h1 a (key x) c) xs)"

text \<open>
  \<^verbatim>\<open>deepCopy(val)\<close> in heap \<open>h\<close>. The recursion of the source follows the object
  graph and need not end, so the first argument bounds its depth: \<open>None\<close> says that
  the bound was reached, and the source call returns iff some bound gives \<open>Some\<close>.
  A call that returns for no bound is one whose recursion has no end; the engine ends
  it when its stack is full.
\<close>

primrec deepCopy :: "nat \<Rightarrow> heap \<Rightarrow> val \<Rightarrow> (heap \<times> val) option" where
  "deepCopy 0 h v = None"
| "deepCopy (Suc n) h v =
     (case mTypeof h v of
        TArray \<Rightarrow>
          (let (a, h1) = alloc h (Array [])
           in map_option (\<lambda>h2. (h2, Ref a))
                (copy_loop (deepCopy n) (\<lambda>_ x. x) (\<lambda>_. Undefined) a h1 (elems h v)))
      | TObject \<Rightarrow>
          (let (a, h1) = alloc h (Object [])
           in map_option (\<lambda>h2. (h2, Ref a))
                (copy_loop (deepCopy n) (\<lambda>hc k. getProp hc v k) Str a h1 (keys h v)))
      | TMap \<Rightarrow>
          (let (a, h1) = alloc h (Map [])
           in map_option (\<lambda>h2. (h2, Ref a))
                (copy_loop (deepCopy n) (\<lambda>_ e. snd e) fst a h1 (entries h v)))
      | TSet \<Rightarrow>
          (let (a, h1) = alloc h (Set [])
           in map_option (\<lambda>h2. (h2, Ref a))
                (copy_loop (deepCopy n) (\<lambda>_ x. x) (\<lambda>_. Undefined) a h1 (elems h v)))
      | TRegExp \<Rightarrow>
          (let (a, h1) = alloc h (RegExp (source_of h v) (flags_of h v)) in Some (h1, Ref a))
      | TDate \<Rightarrow>
          (let (a, h1) = alloc h (Date (time_of h v)) in Some (h1, Ref a))
      | _ \<Rightarrow> Some (h, v))"

section \<open>isObjectEqual: the structural comparison\<close>

text \<open>\<^verbatim>\<open>===\<close>: no number equals \<open>NaN\<close>; references are equal when they are the same.\<close>

definition strict_eq :: "val \<Rightarrow> val \<Rightarrow> bool" where
  "strict_eq x y = (x = y \<and> x \<noteq> Number NaN)"

definition strict_eq_num :: "number \<Rightarrow> number \<Rightarrow> bool" where
  "strict_eq_num x y = (x = y \<and> x \<noteq> NaN)"

text \<open>\<^verbatim>\<open>Array.prototype.every\<close>: stops at the first element that fails.\<close>

fun every :: "('a \<Rightarrow> bool option) \<Rightarrow> 'a list \<Rightarrow> bool option" where
  "every p [] = Some True"
| "every p (x # xs) =
     (case p x of None \<Rightarrow> None | Some False \<Rightarrow> Some False | Some True \<Rightarrow> every p xs)"

text \<open>
  The \<^verbatim>\<open>while\<close> loop over the two entry iterators: it runs while both have an
  entry, and fails at the first pair that differs in key or value under \<^verbatim>\<open>!==\<close>.
\<close>

fun entries_loop :: "(val \<times> val) list \<Rightarrow> (val \<times> val) list \<Rightarrow> bool" where
  "entries_loop (e1 # es1) (e2 # es2) =
     (if \<not> strict_eq (fst e1) (fst e2) \<or> \<not> strict_eq (snd e1) (snd e2) then False
      else entries_loop es1 es2)"
| "entries_loop es1 es2 = True"

text \<open>
  \<^verbatim>\<open>isObjectEqual(obj1, obj2, excludes)\<close> in heap \<open>h\<close>, with a bound on the depth
  of the recursion as for \<open>deepCopy\<close>. The exclusion list is a list of keys (the
  default of the source is \<^verbatim>\<open>['key']\<close>); a false value in its place excludes
  nothing, as the empty list does.
\<close>

primrec isObjectEqual :: "nat \<Rightarrow> heap \<Rightarrow> val \<Rightarrow> val \<Rightarrow> string list \<Rightarrow> bool option" where
  "isObjectEqual 0 h obj1 obj2 excludes = None"
| "isObjectEqual (Suc n) h obj1 obj2 excludes =
     (let type1 = mTypeof h obj1; type2 = mTypeof h obj2 in
      if type1 \<noteq> type2 then Some False
      else case type1 of
        TArray \<Rightarrow>
          if length (elems h obj1) \<noteq> length (elems h obj2) then Some False
          else every (\<lambda>(idx, v). isObjectEqual n h v (at (elems h obj2) idx) excludes)
                 (enumerate 0 (elems h obj1))
      | TObject \<Rightarrow>
          (let keys1 = keys h obj1; keys2 = keys h obj2 in
           if length keys1 \<noteq> length keys2 then Some False
           else every (\<lambda>k. if k \<in> set excludes then Some True
                           else isObjectEqual n h (getProp h obj1 k) (getProp h obj2 k) excludes)
                  keys1)
      | TString \<Rightarrow> Some (strict_eq obj1 obj2)
      | TNumber \<Rightarrow> Some (strict_eq obj1 obj2)
      | TBoolean \<Rightarrow> Some (strict_eq obj1 obj2)
      | TDate \<Rightarrow> Some (strict_eq_num (time_of h obj1) (time_of h obj2))
      | TFunction \<Rightarrow> Some (strict_eq obj1 obj2)
      | TMap \<Rightarrow>
          if size_of h obj1 \<noteq> size_of h obj2 then Some False
          else Some (entries_loop (entries h obj1) (entries h obj2))
      | TSet \<Rightarrow>
          if size_of h obj1 \<noteq> size_of h obj2 then Some False
          else Some (entries_loop (entries h obj1) (entries h obj2))
      | TRegExp \<Rightarrow> Some (toString h obj1 = toString h obj2)
      | _ \<Rightarrow> Some True)"

section \<open>deepCopy1: the clone by property descriptors\<close>

datatype error = TypeError

text \<open>
  The visited registry is a \<^verbatim>\<open>WeakMap\<close> from the identity of an original to its
  clone. A primitive is never a key of it.
\<close>

type_synonym hash = "ref \<Rightarrow> val option"

definition has :: "hash \<Rightarrow> val \<Rightarrow> bool" where
  "has hs v = (case v of Ref r \<Rightarrow> hs r \<noteq> None | _ \<Rightarrow> False)"

definition hash_get :: "hash \<Rightarrow> val \<Rightarrow> val" where
  "hash_get hs v = (case v of Ref r \<Rightarrow> (case hs r of Some c \<Rightarrow> c | None \<Rightarrow> Undefined) | _ \<Rightarrow> Undefined)"

definition instanceofDate :: "heap \<Rightarrow> val \<Rightarrow> bool" where
  "instanceofDate h v =
     (case v of Ref r \<Rightarrow> (case body (get h r) of Date t \<Rightarrow> True | _ \<Rightarrow> False) | _ \<Rightarrow> False)"

definition instanceofRegExp :: "heap \<Rightarrow> val \<Rightarrow> bool" where
  "instanceofRegExp h v =
     (case v of Ref r \<Rightarrow> (case body (get h r) of RegExp s f \<Rightarrow> True | _ \<Rightarrow> False) | _ \<Rightarrow> False)"

text \<open>The truth value of a value, and the \<^verbatim>\<open>typeof\<close> operator.\<close>

definition truthy :: "val \<Rightarrow> bool" where
  "truthy v = (case v of
       Undefined \<Rightarrow> False
     | Null \<Rightarrow> False
     | Bool b \<Rightarrow> b
     | Number x \<Rightarrow> (case x of NaN \<Rightarrow> False | Fin i \<Rightarrow> i \<noteq> 0)
     | Str s \<Rightarrow> s \<noteq> []
     | Ref r \<Rightarrow> True)"

definition typeof :: "heap \<Rightarrow> val \<Rightarrow> string" where
  "typeof h v = (case v of
       Undefined \<Rightarrow> ''undefined''
     | Null \<Rightarrow> ''object''
     | Bool b \<Rightarrow> ''boolean''
     | Number x \<Rightarrow> ''number''
     | Str s \<Rightarrow> ''string''
     | Ref r \<Rightarrow> (case body (get h r) of Function \<Rightarrow> ''function'' | _ \<Rightarrow> ''object''))"

text \<open>The decimal name of an array index.\<close>

fun dec :: "nat \<Rightarrow> string" where
  "dec n = (if n < 10 then [char_of (48 + n)] else dec (n div 10) @ [char_of (48 + n mod 10)])"

text \<open>
  The own properties of an object, as \<^verbatim>\<open>Object.getOwnPropertyDescriptors\<close> and
  \<^verbatim>\<open>Reflect.ownKeys\<close> see them: an array has its elements under their indices and
  then \<^verbatim>\<open>length\<close>; the entries of a map and the elements of a set are internal
  data and no properties.
\<close>

definition own :: "heap \<Rightarrow> val \<Rightarrow> (string \<times> val) list" where
  "own h v = (case v of Ref r \<Rightarrow>
     (case body (get h r) of
        Array vs \<Rightarrow> zip (map dec [0..<length vs]) vs @ [(''length'', Number (Fin (int (length vs))))]
      | Object ps \<Rightarrow> ps
      | Opaque t ps \<Rightarrow> ps
      | Shell t ps \<Rightarrow> ps
      | _ \<Rightarrow> [])
   | _ \<Rightarrow> [])"

definition ownKeys :: "heap \<Rightarrow> val \<Rightarrow> string list" where
  "ownKeys h v = map fst (own h v)"

definition readKey :: "heap \<Rightarrow> val \<Rightarrow> string \<Rightarrow> val" where
  "readKey h v k = lookup (own h v) k"

text \<open>
  \<^verbatim>\<open>Object.create(Object.getPrototypeOf(obj), allDesc)\<close>: a new ordinary
  object with the prototype of the object and the own properties \<open>ps\<close>, read-only
  where they are read-only in the object. Made from \<^verbatim>\<open>Object.prototype\<close> it
  is a record.
\<close>

fun create :: "(string \<times> val) list \<Rightarrow> obj \<Rightarrow> obj" where
  "create ps (Array vs) = Shell ArrayProto ps"
| "create ps (Object qs) = Object ps"
| "create ps (Map es) = Shell MapProto ps"
| "create ps (Set vs) = Shell SetProto ps"
| "create ps (RegExp s f) = Shell RegExpProto ps"
| "create ps (Date t) = Shell DateProto ps"
| "create ps Function = Shell FunctionProto ps"
| "create ps (Opaque t qs) =
     (if read_only (Opaque t qs) then ReadOnly (Shell (ClassProto t) ps)
      else Shell (ClassProto t) ps)"
| "create ps (Shell t qs) = Shell t ps"
| "create ps (ReadOnly ob) = ReadOnly (create ps ob)"

definition shellOf :: "heap \<Rightarrow> ref \<Rightarrow> obj" where
  "shellOf h r = create (own h (Ref r)) (get h r)"

text \<open>
  The \<^verbatim>\<open>for\<close> loop over the own keys: a property whose value is truthy and of
  type \<^verbatim>\<open>"object"\<close> is cloned by \<open>f\<close>, any other is taken as it is; the value is
  then assigned to the property of the new object at \<open>a\<close>. An exception of \<open>f\<close>
  ends the loop, and so does the assignment when the property of the new object is
  read-only: the code is strict, and the assignment throws a \<^verbatim>\<open>TypeError\<close>.
\<close>

fun clone_keys ::
  "(heap \<Rightarrow> hash \<Rightarrow> val \<Rightarrow> ((error + val) \<times> heap \<times> hash) option) \<Rightarrow> val \<Rightarrow> ref \<Rightarrow>
   heap \<Rightarrow> hash \<Rightarrow> string list \<Rightarrow> ((error + unit) \<times> heap \<times> hash) option" where
  "clone_keys f obj a h hs [] = Some (Inr (), h, hs)"
| "clone_keys f obj a h hs (k # ks) =
     (if truthy (readKey h obj k) \<and> typeof h (readKey h obj k) = ''object'' then
        (case f h hs (readKey h obj k) of
           None \<Rightarrow> None
         | Some (Inl e, h1, hs1) \<Rightarrow> Some (Inl e, h1, hs1)
         | Some (Inr c, h1, hs1) \<Rightarrow>
             if read_only (get h1 a) then Some (Inl TypeError, h1, hs1)
             else clone_keys f obj a (store h1 a (Str k) c) hs1 ks)
      else if read_only (get h a) then Some (Inl TypeError, h, hs)
      else clone_keys f obj a (store h a (Str k) (readKey h obj k)) hs ks)"

text \<open>
  \<^verbatim>\<open>deepCopy1(obj, hash)\<close>, with a bound on the depth of the recursion as for
  \<open>deepCopy\<close>. The result is the value returned or the exception thrown, with the heap
  and the registry as the call leaves them.

  \<^item> \<^verbatim>\<open>Object.getOwnPropertyDescriptors\<close> throws a \<^verbatim>\<open>TypeError\<close> on
    \<^verbatim>\<open>undefined\<close> and \<^verbatim>\<open>null\<close>.
  \<^item> \<^verbatim>\<open>hash.set\<close> throws a \<^verbatim>\<open>TypeError\<close> on a key that is no object. The
    object that \<^verbatim>\<open>Object.create\<close> made from the primitive just before is
    unreachable then and is left out of the heap.
  \<^item> The own properties \<^verbatim>\<open>length\<close> and \<^verbatim>\<open>name\<close> of a function are
    read-only, and so are their copies in the new object, where the first assignment
    of the loop throws a \<^verbatim>\<open>TypeError\<close>.
\<close>

primrec deepCopy1 ::
  "nat \<Rightarrow> heap \<Rightarrow> hash \<Rightarrow> val \<Rightarrow> ((error + val) \<times> heap \<times> hash) option" where
  "deepCopy1 0 h hs obj = None"
| "deepCopy1 (Suc n) h hs obj =
     (if instanceofDate h obj then
        (let (a, h1) = alloc h (Date (time_of h obj)) in Some (Inr (Ref a), h1, hs))
      else if instanceofRegExp h obj then
        (let (a, h1) = alloc h (RegExp (source_of h obj) (flags_of h obj))
         in Some (Inr (Ref a), h1, hs))
      else if has hs obj then Some (Inr (hash_get hs obj), h, hs)
      else case obj of
        Ref r \<Rightarrow>
          (let (a, h1) = alloc h (shellOf h r); hs1 = hs(r \<mapsto> Ref a) in
           if typeof h obj = ''function'' then Some (Inl TypeError, h1, hs1)
           else case clone_keys (deepCopy1 n) obj a h1 hs1 (ownKeys h obj) of
                  None \<Rightarrow> None
                | Some (Inl e, h2, hs2) \<Rightarrow> Some (Inl e, h2, hs2)
                | Some (Inr u, h2, hs2) \<Rightarrow> Some (Inr (Ref a), h2, hs2))
      | _ \<Rightarrow> Some (Inl TypeError, h, hs))"

text \<open>A call with one argument: \<^verbatim>\<open>hash = new WeakMap()\<close>, which the caller never sees.\<close>

definition deepCopy1_fresh :: "nat \<Rightarrow> heap \<Rightarrow> val \<Rightarrow> ((error + val) \<times> heap) option" where
  "deepCopy1_fresh n h obj = map_option (\<lambda>(res, h1, hs1). (res, h1)) (deepCopy1 n h Map.empty obj)"

section \<open>Predicates used in the statements\<close>

definition is_primitive :: "val \<Rightarrow> bool" where
  "is_primitive v = (case v of Ref r \<Rightarrow> False | _ \<Rightarrow> True)"

text \<open>
  A value is valid in a heap when it is a primitive or refers to an object of the heap;
  a heap is closed when its objects hold valid values only. \<open>vals_of\<close> lists the
  values an object holds.
\<close>

definition valid :: "heap \<Rightarrow> val \<Rightarrow> bool" where
  "valid h v = (case v of Ref r \<Rightarrow> r < length h | _ \<Rightarrow> True)"

definition vals_of :: "obj \<Rightarrow> val list" where
  "vals_of ob = (case body ob of
       Array vs \<Rightarrow> vs
     | Object ps \<Rightarrow> map snd ps
     | Map es \<Rightarrow> map fst es @ map snd es
     | Set vs \<Rightarrow> vs
     | Opaque t ps \<Rightarrow> map snd ps
     | Shell t ps \<Rightarrow> map snd ps
     | _ \<Rightarrow> [])"

definition closed :: "heap \<Rightarrow> bool" where
  "closed h = list_all (\<lambda>ob. list_all (valid h) (vals_of ob)) h"

text \<open>
  The objects of the data model of \<^verbatim>\<open>deepCopy\<close> and \<^verbatim>\<open>isObjectEqual\<close>: no
  shells; the keys of a record and of a map and the elements of a set are distinct.
\<close>

definition data_obj :: "obj \<Rightarrow> bool" where
  "data_obj ob = (case body ob of
       Object ps \<Rightarrow> distinct (map fst ps)
     | Map es \<Rightarrow> distinct (map fst es)
     | Set vs \<Rightarrow> distinct vs
     | Opaque t ps \<Rightarrow> distinct (map fst ps)
     | Shell t ps \<Rightarrow> False
     | _ \<Rightarrow> True)"

definition data_heap :: "heap \<Rightarrow> bool" where
  "data_heap h = (closed h \<and> list_all data_obj h)"

text \<open>
  The values that \<^verbatim>\<open>deepCopy\<close> clones when it clones an object: the elements of
  an array or a set, the property values of a record, the values (not the keys) of a
  map. \<open>reach h v\<close> are the objects it gets to from \<open>v\<close> this way, and
  \<open>clone_edges h v\<close> relates each of them to its parent.
\<close>

definition kids :: "obj \<Rightarrow> val list" where
  "kids ob = (case body ob of
       Array vs \<Rightarrow> vs
     | Object ps \<Rightarrow> map snd ps
     | Map es \<Rightarrow> map snd es
     | Set vs \<Rightarrow> vs
     | _ \<Rightarrow> [])"

inductive_set reach :: "heap \<Rightarrow> val \<Rightarrow> ref set" for h :: heap and v :: val where
  root: "v = Ref r \<Longrightarrow> r \<in> reach h v"
| kid: "p \<in> reach h v \<Longrightarrow> Ref c \<in> set (kids (get h p)) \<Longrightarrow> c \<in> reach h v"

definition clone_edges :: "heap \<Rightarrow> val \<Rightarrow> (ref \<times> ref) set" where
  "clone_edges h v = {(c, p). p \<in> reach h v \<and> Ref c \<in> set (kids (get h p))}"

text \<open>The objects that \<^verbatim>\<open>deepCopy\<close> clones; it returns every other value as it is.\<close>

definition cloned :: "obj \<Rightarrow> bool" where
  "cloned ob = (case body ob of Array vs \<Rightarrow> True | Object ps \<Rightarrow> True | Map es \<Rightarrow> True
     | Set vs \<Rightarrow> True | RegExp s f \<Rightarrow> True | Date t \<Rightarrow> True | _ \<Rightarrow> False)"




text \<open>
  The objects that \<^verbatim>\<open>deepCopy1\<close> gets to from \<open>v\<close>: it follows the own
  properties. \<open>writable h v\<close> says that none of them has a read-only own property.
\<close>

inductive_set reach_own :: "heap \<Rightarrow> val \<Rightarrow> ref set" for h :: heap and v :: val where
  root_own: "v = Ref r \<Longrightarrow> r \<in> reach_own h v"
| prop_own: "p \<in> reach_own h v \<Longrightarrow> (k, Ref c) \<in> set (own h (Ref p)) \<Longrightarrow> c \<in> reach_own h v"



section \<open>Heap lemmas and the frame of both clones\<close>

declare deepCopy.simps [simp del] deepCopy1.simps [simp del] isObjectEqual.simps [simp del]

lemma body_not_ReadOnly [simp]: "body ob \<noteq> ReadOnly x"
  by (induction ob) auto

lemma tag_of_body: "tag_of (body ob) = tag_of ob"
  by (induction ob) auto

lemma mTypeof_Ref: "mTypeof h (Ref r) = tag_of (body (get h r))"
  by (simp add: mTypeof_def tag_of_body)

lemma read_only_create [simp]: "read_only (create ps ob) = read_only ob"
  by (cases ob rule: read_only.cases) simp_all

lemma read_only_put [simp]: "read_only (put ob k c) = read_only ob"
  by (cases ob rule: read_only.cases; cases k) (simp_all add: put_def)

lemma get_append: "r < length h \<Longrightarrow> get (h @ xs) r = get h r"
  by (simp add: get_def nth_append)

lemma get_prefix: "prefix h h' \<Longrightarrow> r < length h \<Longrightarrow> get h' r = get h r"
  by (auto simp: prefix_def get_append)



lemma prefix_update: "prefix h0 h \<Longrightarrow> length h0 \<le> a \<Longrightarrow> prefix h0 (h[a := x])"
  by (auto simp: prefix_def list_update_append)

lemma prefix_store: "prefix h0 h \<Longrightarrow> length h0 \<le> a \<Longrightarrow> prefix h0 (store h a k c)"
  by (simp add: store_def prefix_update)

text \<open>One step of each function, case by case.\<close>

lemma deepCopy_Suc_Array:
  "body (get h r) = Array vs \<Longrightarrow> deepCopy (Suc n) h (Ref r) =
     map_option (\<lambda>h2. (h2, Ref (length h)))
       (copy_loop (deepCopy n) (\<lambda>_ x. x) (\<lambda>_. Undefined) (length h) (h @ [Array []]) vs)"
  by (simp add: deepCopy.simps mTypeof_Ref alloc_def elems_def)

lemma deepCopy_Suc_Object:
  "body (get h r) = Object ps \<Longrightarrow> deepCopy (Suc n) h (Ref r) =
     map_option (\<lambda>h2. (h2, Ref (length h)))
       (copy_loop (deepCopy n) (\<lambda>hc k. getProp hc (Ref r) k) Str (length h) (h @ [Object []])
          (map fst ps))"
  by (simp add: deepCopy.simps mTypeof_Ref alloc_def keys_def props_def)

lemma deepCopy_Suc_Map:
  "body (get h r) = Map es \<Longrightarrow> deepCopy (Suc n) h (Ref r) =
     map_option (\<lambda>h2. (h2, Ref (length h)))
       (copy_loop (deepCopy n) (\<lambda>_ e. snd e) fst (length h) (h @ [Map []]) es)"
  by (simp add: deepCopy.simps mTypeof_Ref alloc_def entries_def)

lemma deepCopy_Suc_Set:
  "body (get h r) = Set vs \<Longrightarrow> deepCopy (Suc n) h (Ref r) =
     map_option (\<lambda>h2. (h2, Ref (length h)))
       (copy_loop (deepCopy n) (\<lambda>_ x. x) (\<lambda>_. Undefined) (length h) (h @ [Set []]) vs)"
  by (simp add: deepCopy.simps mTypeof_Ref alloc_def elems_def)

lemma deepCopy_Suc_RegExp:
  "body (get h r) = RegExp s f \<Longrightarrow> deepCopy (Suc n) h (Ref r) = Some (h @ [RegExp s f], Ref (length h))"
  by (simp add: deepCopy.simps mTypeof_Ref alloc_def source_of_def flags_of_def)

lemma deepCopy_Suc_Date:
  "body (get h r) = Date t \<Longrightarrow> deepCopy (Suc n) h (Ref r) = Some (h @ [Date t], Ref (length h))"
  by (simp add: deepCopy.simps mTypeof_Ref alloc_def time_of_def)

lemma deepCopy_Suc_other:
  "\<not> cloned (get h r) \<Longrightarrow> deepCopy (Suc n) h (Ref r) = Some (h, Ref r)"
  by (cases "body (get h r)"; cases "case body (get h r) of Opaque t ps \<Rightarrow> t | _ \<Rightarrow> Class 0")
    (simp_all add: deepCopy.simps mTypeof_Ref cloned_def cls_tag_def)

lemma deepCopy_Suc_prim:
  "is_primitive v \<Longrightarrow> deepCopy (Suc n) h v = Some (h, v)"
  by (cases v) (simp_all add: deepCopy.simps is_primitive_def mTypeof_def)






lemma deepCopy1_Suc_prim:
  "is_primitive v \<Longrightarrow> deepCopy1 (Suc n) h hs v = Some (Inl TypeError, h, hs)"
  by (cases v)
    (simp_all add: deepCopy1.simps is_primitive_def instanceofDate_def instanceofRegExp_def has_def)

lemma isObjectEqual_Suc_diff:
  "mTypeof h x \<noteq> mTypeof h y \<Longrightarrow> isObjectEqual (Suc n) h x y ex = Some False"
  by (simp add: isObjectEqual.simps)

lemma isObjectEqual_Suc_Array:
  "mTypeof h x = TArray \<Longrightarrow> mTypeof h y = TArray \<Longrightarrow>
   isObjectEqual (Suc n) h x y ex =
     (if length (elems h x) \<noteq> length (elems h y) then Some False
      else every (\<lambda>(idx, v). isObjectEqual n h v (at (elems h y) idx) ex)
             (enumerate 0 (elems h x)))"
  by (simp add: isObjectEqual.simps)

lemma isObjectEqual_Suc_Object:
  "mTypeof h x = TObject \<Longrightarrow> mTypeof h y = TObject \<Longrightarrow>
   isObjectEqual (Suc n) h x y ex =
     (if length (keys h x) \<noteq> length (keys h y) then Some False
      else every (\<lambda>k. if k \<in> set ex then Some True
                      else isObjectEqual n h (getProp h x k) (getProp h y k) ex)
             (keys h x))"
  by (simp add: isObjectEqual.simps Let_def)

lemma isObjectEqual_Suc_flat:
  assumes "mTypeof h x \<noteq> TArray" "mTypeof h x \<noteq> TObject"
  shows "isObjectEqual (Suc n) h x y ex = isObjectEqual (Suc 0) h x y ex"
proof (cases "mTypeof h y = mTypeof h x")
  case False
  then show ?thesis by (simp add: isObjectEqual_Suc_diff)
next
  case True
  with assms show ?thesis
    by (cases "mTypeof h x") (simp_all add: isObjectEqual.simps)
qed

lemma copy_loop_frame:
  assumes f: "\<And>h v h' v'. f h v = Some (h', v') \<Longrightarrow> prefix h h'"
    and a: "length h0 \<le> a"
  shows "prefix h0 h \<Longrightarrow> copy_loop f rd key a h xs = Some h' \<Longrightarrow> prefix h0 h'"
proof (induction xs arbitrary: h)
  case Nil
  then show ?case by simp
next
  case (Cons x xs)
  from Cons.prems(2) obtain h1 c where
    step: "f h (rd h x) = Some (h1, c)" and
    rest: "copy_loop f rd key a (store h1 a (key x) c) xs = Some h'"
    by (auto split: option.splits)
  from f [OF step] Cons.prems(1) have "prefix h0 h1"
    by (rule prefix_order.trans [rotated])
  then have "prefix h0 (store h1 a (key x) c)"
    using a by (rule prefix_store)
  then show ?case using rest by (rule Cons.IH)
qed

lemma deepCopy_frame: "deepCopy n h v = Some (h', v') \<Longrightarrow> prefix h h'"
proof (induction n arbitrary: h v h' v')
  case 0
  then show ?case by (simp add: deepCopy.simps)
next
  case (Suc n)
  have loop: "prefix h hx" if "copy_loop (deepCopy n) rd key (length h) (h @ [ob]) xs = Some hx"
    for rd :: "heap \<Rightarrow> 'k \<Rightarrow> val" and key ob xs hx
    by (rule copy_loop_frame [where f = "deepCopy n" and a = "length h" and h = "h @ [ob]"])
      (use that Suc.IH in auto)
  from Suc.prems show ?case
    by (auto simp: deepCopy.simps alloc_def split: tag.splits dest: loop)
qed




section \<open>The bound on the depth is only a bound\<close>

text \<open>
  A result obtained with one bound is the result with every larger bound: what the
  three functions return does not depend on the bound, once it is large enough.
\<close>

lemma copy_loop_mono:
  assumes "\<And>h v r. f h v = Some r \<Longrightarrow> f' h v = Some r"
  shows "copy_loop f rd key a h xs = Some r \<Longrightarrow> copy_loop f' rd key a h xs = Some r"
proof (induction xs arbitrary: h)
  case Nil
  then show ?case by simp
next
  case (Cons x xs)
  from Cons.prems obtain h1 c where
    step: "f h (rd h x) = Some (h1, c)" and
    rest: "copy_loop f rd key a (store h1 a (key x) c) xs = Some r"
    by (auto split: option.splits)
  from assms [OF step] Cons.IH [OF rest] show ?case by simp
qed

lemma deepCopy_Suc_mono: "deepCopy n h v = Some r \<Longrightarrow> deepCopy (Suc n) h v = Some r"
proof (induction n arbitrary: h v r)
  case 0
  then show ?case by (simp add: deepCopy.simps)
next
  case (Suc n)
  have loop: "copy_loop (deepCopy (Suc n)) rd key a hc xs = Some hx"
    if "copy_loop (deepCopy n) rd key a hc xs = Some hx"
    for rd :: "heap \<Rightarrow> 'k \<Rightarrow> val" and key a hc xs hx
    using Suc.IH that by (rule copy_loop_mono)
  show ?case
  proof (cases v)
    case (Ref p)
    from Suc.prems show ?thesis unfolding Ref
      by (cases "body (get h p)")
        (auto simp: deepCopy_Suc_Array deepCopy_Suc_Object deepCopy_Suc_Map deepCopy_Suc_Set
          deepCopy_Suc_RegExp deepCopy_Suc_Date deepCopy_Suc_other cloned_def dest: loop)
  qed (use Suc.prems in \<open>simp_all add: deepCopy_Suc_prim is_primitive_def\<close>)
qed

lemma deepCopy_mono: "deepCopy n h v = Some r \<Longrightarrow> n \<le> m \<Longrightarrow> deepCopy m h v = Some r"
  by (induction m) (auto simp: le_Suc_eq dest: deepCopy_Suc_mono)

lemma every_mono:
  assumes "\<And>x b. x \<in> set xs \<Longrightarrow> p x = Some b \<Longrightarrow> p' x = Some b"
  shows "every p xs = Some b \<Longrightarrow> every p' xs = Some b"
  using assms
proof (induction xs)
  case Nil
  then show ?case by simp
next
  case (Cons x xs)
  from Cons.prems(1) obtain bx where bx: "p x = Some bx"
    by (auto split: option.splits)
  then have "p' x = Some bx" by (intro Cons.prems(2)) auto
  with Cons bx show ?case by (cases bx) auto
qed

lemma isObjectEqual_Suc_mono:
  "isObjectEqual n h x y ex = Some b \<Longrightarrow> isObjectEqual (Suc n) h x y ex = Some b"
proof (induction n arbitrary: x y b)
  case 0
  then show ?case by (simp add: isObjectEqual.simps)
next
  case (Suc n)
  consider "mTypeof h x \<noteq> mTypeof h y"
    | "mTypeof h x = TArray" "mTypeof h y = TArray"
    | "mTypeof h x = TObject" "mTypeof h y = TObject"
    | "mTypeof h x \<noteq> TArray" "mTypeof h x \<noteq> TObject"
    by metis
  then show ?case
  proof cases
    case 1
    with Suc.prems show ?thesis by (simp add: isObjectEqual_Suc_diff)
  next
    case 2
    show ?thesis
    proof (cases "length (elems h x) = length (elems h y)")
      case False
      with Suc.prems show ?thesis by (simp add: isObjectEqual_Suc_Array [OF 2])
    next
      case True
      with Suc.prems have
        "every (\<lambda>(idx, v). isObjectEqual n h v (at (elems h y) idx) ex)
           (enumerate 0 (elems h x)) = Some b"
        by (simp add: isObjectEqual_Suc_Array [OF 2])
      then have
        "every (\<lambda>(idx, v). isObjectEqual (Suc n) h v (at (elems h y) idx) ex)
           (enumerate 0 (elems h x)) = Some b"
        by (rule every_mono [rotated]) (auto dest: Suc.IH)
      with True show ?thesis by (simp add: isObjectEqual_Suc_Array [OF 2])
    qed
  next
    case 3
    show ?thesis
    proof (cases "length (keys h x) = length (keys h y)")
      case False
      with Suc.prems show ?thesis by (simp add: isObjectEqual_Suc_Object [OF 3])
    next
      case True
      with Suc.prems have
        "every (\<lambda>k. if k \<in> set ex then Some True
                    else isObjectEqual n h (getProp h x k) (getProp h y k) ex) (keys h x) = Some b"
        by (simp add: isObjectEqual_Suc_Object [OF 3])
      then have
        "every (\<lambda>k. if k \<in> set ex then Some True
                    else isObjectEqual (Suc n) h (getProp h x k) (getProp h y k) ex) (keys h x)
           = Some b"
        by (rule every_mono [rotated]) (auto split: if_splits dest: Suc.IH)
      with True show ?thesis by (simp add: isObjectEqual_Suc_Object [OF 3])
    qed
  next
    case 4
    with Suc.prems show ?thesis
      using isObjectEqual_Suc_flat [OF 4, of n y ex] isObjectEqual_Suc_flat [OF 4, of "Suc n" y ex]
      by simp
  qed
qed

lemma isObjectEqual_mono:
  "isObjectEqual n h x y ex = Some b \<Longrightarrow> n \<le> m \<Longrightarrow> isObjectEqual m h x y ex = Some b"
  by (induction m) (auto simp: le_Suc_eq dest: isObjectEqual_Suc_mono)




section \<open>Structural equality\<close>

lemma every_True_iff: "every p xs = Some True \<longleftrightarrow> (\<forall>x\<in>set xs. p x = Some True)"
  by (induction xs) (auto split: option.splits bool.splits)

lemma entries_loop_iff:
  "length es1 = length es2 \<Longrightarrow>
   entries_loop es1 es2 \<longleftrightarrow>
     list_all2 (\<lambda>e1 e2. strict_eq (fst e1) (fst e2) \<and> strict_eq (snd e1) (snd e2)) es1 es2"
  by (induction es1 es2 rule: entries_loop.induct) auto

lemma isObjectEqual_containers:
  assumes "mTypeof h a = TSet \<and> mTypeof h b = TSet \<or> mTypeof h a = TMap \<and> mTypeof h b = TMap"
  shows "isObjectEqual (Suc n) h a b ex =
     Some (size_of h a = size_of h b \<and>
       list_all2 (\<lambda>e1 e2. strict_eq (fst e1) (fst e2) \<and> strict_eq (snd e1) (snd e2))
         (entries h a) (entries h b))"
  using assms
  by (auto simp: isObjectEqual.simps size_of_def entries_loop_iff dest: list_all2_lengthD)

text \<open>
  Claim C5. On two sets or on two maps \<^verbatim>\<open>isObjectEqual\<close> returns, and it returns
  true iff both have the same number of entries and, in insertion order, the entries
  at each position have strictly equal (\<^verbatim>\<open>===\<close>) keys and strictly equal values.
  The comparison depends on the order: the sets with the elements 1, 2 and 2, 1
  compare unequal.
\<close>
theorem isObjectEqual_set_map_ordered:
  "(mTypeof h a = TSet \<and> mTypeof h b = TSet \<or> mTypeof h a = TMap \<and> mTypeof h b = TMap \<longrightarrow>
      isObjectEqual (Suc n) h a b ex =
        Some (size_of h a = size_of h b \<and>
          list_all2 (\<lambda>e1 e2. strict_eq (fst e1) (fst e2) \<and> strict_eq (snd e1) (snd e2))
            (entries h a) (entries h b))) \<and>
   isObjectEqual (Suc n)
     [Set [Number (Fin 1), Number (Fin 2)], Set [Number (Fin 2), Number (Fin 1)]]
     (Ref 0) (Ref 1) ex = Some False"
proof (intro conjI impI)
  assume "mTypeof h a = TSet \<and> mTypeof h b = TSet \<or> mTypeof h a = TMap \<and> mTypeof h b = TMap"
  then show "isObjectEqual (Suc n) h a b ex =
        Some (size_of h a = size_of h b \<and>
          list_all2 (\<lambda>e1 e2. strict_eq (fst e1) (fst e2) \<and> strict_eq (snd e1) (snd e2))
            (entries h a) (entries h b))"
    by (rule isObjectEqual_containers)
next
  show "isObjectEqual (Suc n)
     [Set [Number (Fin 1), Number (Fin 2)], Set [Number (Fin 2), Number (Fin 1)]]
     (Ref 0) (Ref 1) ex = Some False"
    by (simp add: isObjectEqual.simps mTypeof_def get_def size_of_def entries_def strict_eq_def)
qed

theorem isObjectEqual_set_map_ordered_witness:
  "mTypeof [Map [(Str ''k'', Number (Fin 1))], Map [(Str ''k'', Number (Fin 1))]] (Ref 0) = TMap \<and>
   mTypeof [Map [(Str ''k'', Number (Fin 1))], Map [(Str ''k'', Number (Fin 1))]] (Ref 1) = TMap \<and>
   isObjectEqual (Suc 0) [Map [(Str ''k'', Number (Fin 1))], Map [(Str ''k'', Number (Fin 1))]]
     (Ref 0) (Ref 1) [] = Some True"
proof -
  let ?h = "[Map [(Str ''k'', Number (Fin 1))], Map [(Str ''k'', Number (Fin 1))]]"
  have t: "mTypeof ?h (Ref 0) = TMap" "mTypeof ?h (Ref 1) = TMap"
    by (simp_all add: mTypeof_def get_def)
  have e: "size_of ?h (Ref 0) = size_of ?h (Ref 1)"
    "list_all2 (\<lambda>e1 e2. strict_eq (fst e1) (fst e2) \<and> strict_eq (snd e1) (snd e2))
       (entries ?h (Ref 0)) (entries ?h (Ref 1))"
    by (simp_all add: size_of_def entries_def get_def strict_eq_def)
  from isObjectEqual_set_map_ordered [of ?h "Ref 0" "Ref 1" 0 "[]"] t e
  show ?thesis by simp
qed

lemma strict_pairs_iff:
  "list_all2 (\<lambda>e1 e2. strict_eq (fst e1) (fst e2) \<and> strict_eq (snd e1) (snd e2)) es1 es2 \<longleftrightarrow>
   es1 = es2 \<and> list_all (\<lambda>e. fst e \<noteq> Number NaN \<and> snd e \<noteq> Number NaN) es1"
proof (induction es1 arbitrary: es2)
  case Nil
  show ?case by auto
next
  case (Cons e es1)
  then show ?case by (cases es2) (auto simp: strict_eq_def prod_eq_iff)
qed

text \<open>
  Claim C8. The entries of sets and maps are compared by identity, not recursively:
  on two sets or on two maps \<^verbatim>\<open>isObjectEqual\<close> returns true when the two hold
  the very same values in the same order (where they are objects, the same
  references) and none of them is \<open>NaN\<close>, and false in every other case. Two sets
  that each hold one record \<^verbatim>\<open>{a: 1}\<close>, two distinct objects, compare unequal,
  although the two arrays that hold the same two records compare equal; two distinct
  sets that hold the same record compare equal.
\<close>
theorem isObjectEqual_entries_by_identity:
  "(mTypeof h a = TSet \<and> mTypeof h b = TSet \<or> mTypeof h a = TMap \<and> mTypeof h b = TMap \<longrightarrow>
      isObjectEqual (Suc n) h a b ex =
        Some (entries h a = entries h b \<and>
          list_all (\<lambda>e. fst e \<noteq> Number NaN \<and> snd e \<noteq> Number NaN) (entries h a))) \<and>
   isObjectEqual 3
     [Set [Ref 2], Set [Ref 3], Object [(''a'', Number (Fin 1))], Object [(''a'', Number (Fin 1))],
      Array [Ref 2], Array [Ref 3]] (Ref 0) (Ref 1) [''key''] = Some False \<and>
   isObjectEqual 3
     [Set [Ref 2], Set [Ref 3], Object [(''a'', Number (Fin 1))], Object [(''a'', Number (Fin 1))],
      Array [Ref 2], Array [Ref 3]] (Ref 4) (Ref 5) [''key''] = Some True \<and>
   isObjectEqual 3
     [Set [Ref 2], Set [Ref 2], Object [(''a'', Number (Fin 1))]] (Ref 0) (Ref 1) [''key'']
     = Some True"
proof (intro conjI impI)
  assume "mTypeof h a = TSet \<and> mTypeof h b = TSet \<or> mTypeof h a = TMap \<and> mTypeof h b = TMap"
  then have "isObjectEqual (Suc n) h a b ex =
     Some (size_of h a = size_of h b \<and>
       list_all2 (\<lambda>e1 e2. strict_eq (fst e1) (fst e2) \<and> strict_eq (snd e1) (snd e2))
         (entries h a) (entries h b))"
    by (rule isObjectEqual_containers)
  then show "isObjectEqual (Suc n) h a b ex =
        Some (entries h a = entries h b \<and>
          list_all (\<lambda>e. fst e \<noteq> Number NaN \<and> snd e \<noteq> Number NaN) (entries h a))"
    by (auto simp: strict_pairs_iff size_of_def)
qed code_simp+

theorem isObjectEqual_entries_by_identity_witness:
  "mTypeof [Set [Ref 2], Set [Ref 2], Function] (Ref 0) = TSet \<and>
   mTypeof [Set [Ref 2], Set [Ref 2], Function] (Ref 1) = TSet \<and>
   entries [Set [Ref 2], Set [Ref 2], Function] (Ref 0) = [(Ref 2, Ref 2)] \<and>
   entries [Set [Ref 2], Set [Ref 2], Function] (Ref 1) = [(Ref 2, Ref 2)] \<and>
   isObjectEqual (Suc 0) [Set [Ref 2], Set [Ref 2], Function] (Ref 0) (Ref 1) [] = Some True"
proof -
  let ?h = "[Set [Ref 2], Set [Ref 2], Function]"
  have t: "mTypeof ?h (Ref 0) = TSet" "mTypeof ?h (Ref 1) = TSet"
    by (simp_all add: mTypeof_def get_def)
  have e: "entries ?h (Ref 0) = [(Ref 2, Ref 2)]" "entries ?h (Ref 1) = [(Ref 2, Ref 2)]"
    by (simp_all add: entries_def get_def)
  from isObjectEqual_entries_by_identity [of ?h "Ref 0" "Ref 1" 0 "[]"] t
  have "isObjectEqual (Suc 0) ?h (Ref 0) (Ref 1) [] =
      Some (entries ?h (Ref 0) = entries ?h (Ref 1) \<and>
        list_all (\<lambda>e. fst e \<noteq> Number NaN \<and> snd e \<noteq> Number NaN) (entries ?h (Ref 0)))"
    by blast
  with t e show ?thesis by simp
qed

text \<open>
  Claim C6. On two records \<^verbatim>\<open>isObjectEqual\<close> returns true iff they have the same
  number of keys and every key of the first record that is not excluded has values
  in the two records on which the recursive call returns true; the values under an
  excluded key are never looked at. So \<^verbatim>\<open>{key:1, val:2}\<close> equals
  \<^verbatim>\<open>{key:99, val:2}\<close> and differs from \<^verbatim>\<open>{key:1, val:3}\<close> when
  \<^verbatim>\<open>key\<close> is excluded.
\<close>
theorem isObjectEqual_excludes:
  "(mTypeof h a = TObject \<and> mTypeof h b = TObject \<longrightarrow>
      (isObjectEqual (Suc n) h a b ex = Some True) =
        (length (keys h a) = length (keys h b) \<and>
         (\<forall>k\<in>set (keys h a). k \<notin> set ex \<longrightarrow>
            isObjectEqual n h (getProp h a k) (getProp h b k) ex = Some True))) \<and>
   isObjectEqual 2
     [Object [(''key'', Number (Fin 1)), (''val'', Number (Fin 2))],
      Object [(''key'', Number (Fin 99)), (''val'', Number (Fin 2))]]
     (Ref 0) (Ref 1) [''key''] = Some True \<and>
   isObjectEqual 2
     [Object [(''key'', Number (Fin 1)), (''val'', Number (Fin 2))],
      Object [(''key'', Number (Fin 1)), (''val'', Number (Fin 3))]]
     (Ref 0) (Ref 1) [''key''] = Some False"
proof (intro conjI impI)
  assume "mTypeof h a = TObject \<and> mTypeof h b = TObject"
  then show "(isObjectEqual (Suc n) h a b ex = Some True) =
        (length (keys h a) = length (keys h b) \<and>
         (\<forall>k\<in>set (keys h a). k \<notin> set ex \<longrightarrow>
            isObjectEqual n h (getProp h a k) (getProp h b k) ex = Some True))"
    by (auto simp: isObjectEqual.simps Let_def every_True_iff)
qed code_simp+

theorem isObjectEqual_excludes_witness:
  "mTypeof [Object [(''key'', Null), (''v'', Str ''a'')], Object [(''v'', Str ''a''), (''w'', Null)]]
     (Ref 0) = TObject \<and>
   mTypeof [Object [(''key'', Null), (''v'', Str ''a'')], Object [(''v'', Str ''a''), (''w'', Null)]]
     (Ref 1) = TObject \<and>
   isObjectEqual (Suc (Suc 0))
     [Object [(''key'', Null), (''v'', Str ''a'')], Object [(''v'', Str ''a''), (''w'', Null)]]
     (Ref 0) (Ref 1) [''key''] = Some True"
proof -
  let ?h = "[Object [(''key'', Null), (''v'', Str ''a'')], Object [(''v'', Str ''a''), (''w'', Null)]]"
  have t: "mTypeof ?h (Ref 0) = TObject \<and> mTypeof ?h (Ref 1) = TObject"
    by (simp add: mTypeof_def get_def)
  have l: "length (keys ?h (Ref 0)) = length (keys ?h (Ref 1))"
    by (simp add: keys_def props_def get_def)
  have k: "\<forall>k\<in>set (keys ?h (Ref 0)). k \<notin> set [''key''] \<longrightarrow>
     isObjectEqual (Suc 0) ?h (getProp ?h (Ref 0) k) (getProp ?h (Ref 1) k) [''key''] = Some True"
    by (simp add: isObjectEqual.simps keys_def props_def get_def getProp_def lookup_def
        mTypeof_def strict_eq_def)
  from isObjectEqual_excludes [of ?h "Ref 0" "Ref 1" "Suc 0" "[''key'']"] t l k
  show ?thesis by blast
qed

text \<open>
  Claim C9. With an exclusion list the comparison is not symmetric: only the keys of
  the first argument are walked and tested for exclusion. With \<^verbatim>\<open>key\<close> excluded,
  \<^verbatim>\<open>{key:1, x:1}\<close> equals \<^verbatim>\<open>{y:2, x:1}\<close>, but \<^verbatim>\<open>{y:2, x:1}\<close> does not
  equal \<^verbatim>\<open>{key:1, x:1}\<close>.
\<close>
theorem isObjectEqual_not_symmetric:
  "isObjectEqual 2
     [Object [(''key'', Number (Fin 1)), (''x'', Number (Fin 1))],
      Object [(''y'', Number (Fin 2)), (''x'', Number (Fin 1))]]
     (Ref 0) (Ref 1) [''key''] = Some True \<and>
   isObjectEqual 2
     [Object [(''key'', Number (Fin 1)), (''x'', Number (Fin 1))],
      Object [(''y'', Number (Fin 2)), (''x'', Number (Fin 1))]]
     (Ref 1) (Ref 0) [''key''] = Some False"
  by code_simp

section \<open>Primitives\<close>

lemma primitive_not_cloned:
  "is_primitive x \<Longrightarrow> \<not> (truthy x \<and> typeof h x = ''object'')"
  by (cases x) (simp_all add: is_primitive_def truthy_def typeof_def)

lemma lookup_in: "k \<in> fst ` set ps \<Longrightarrow> (k, lookup ps k) \<in> set ps"
  by (auto simp: lookup_def dest: map_of_SomeD weak_map_of_SomeI split: option.splits)

lemma update_lookup: "k \<in> fst ` set ps \<Longrightarrow> AList.update k (lookup ps k) ps = ps"
  by (rule update_triv) (auto simp: lookup_def map_of_eq_None_iff split: option.splits)

lemma assign_lookup: "k \<in> fst ` set ps \<Longrightarrow> assign ps k (lookup ps k) = ps"
  by (simp add: assign_def update_lookup)

lemma clone_keys_primitive:
  assumes "get h obj_r = Object ps" "get h a = Object ps" "\<forall>(k, x)\<in>set ps. is_primitive x"
  shows "set ks \<subseteq> fst ` set ps \<Longrightarrow> clone_keys f (Ref obj_r) a h hs ks = Some (Inr (), h, hs)"
proof (induction ks)
  case Nil
  then show ?case by simp
next
  case (Cons k ks)
  then have k: "k \<in> fst ` set ps" by simp
  have rd: "readKey h (Ref obj_r) k = lookup ps k"
    by (simp add: readKey_def own_def assms(1))
  from lookup_in [OF k] assms(3) have "is_primitive (lookup ps k)" by auto
  then have no: "\<not> (truthy (lookup ps k) \<and> typeof h (lookup ps k) = ''object'')"
    by (rule primitive_not_cloned)
  have "a < length h" using assms(2) by (auto simp: get_def split: if_splits)
  then have "h ! a = Object ps" using assms(2) by (simp add: get_def)
  then have "h[a := Object ps] = h" by (metis list_update_id)
  then have st: "store h a (Str k) (lookup ps k) = h"
    using assms(2) by (simp add: store_def put_def assign_lookup [OF k])
  have ro: "\<not> read_only (get h a)" using assms(2) by simp
  have "clone_keys f (Ref obj_r) a h hs (k # ks)
      = clone_keys f (Ref obj_r) a (store h a (Str k) (lookup ps k)) hs ks"
    unfolding clone_keys.simps rd by (simp only: if_not_P [OF no] if_not_P [OF ro])
  with Cons show ?case by (simp add: st)
qed

lemma deepCopy1_flat_record:
  assumes "get h r = Object ps" "\<forall>(k, x)\<in>set ps. is_primitive x"
  shows "deepCopy1_fresh (Suc n) h (Ref r) = Some (Inr (Ref (length h)), h @ [Object ps])"
proof -
  have r: "r < length h" using assms(1) by (auto simp: get_def split: if_splits)
  let ?h1 = "h @ [Object ps]"
  have "clone_keys (deepCopy1 n) (Ref r) (length h) ?h1 [r \<mapsto> Ref (length h)] (map fst ps)
          = Some (Inr (), ?h1, [r \<mapsto> Ref (length h)])"
    by (rule clone_keys_primitive [where ps = ps])
      (use assms r in \<open>auto simp: get_def nth_append\<close>)
  then show ?thesis
    using assms(1)
    by (simp add: deepCopy1.simps deepCopy1_fresh_def instanceofDate_def instanceofRegExp_def
        has_def alloc_def shellOf_def typeof_def ownKeys_def own_def)
qed

text \<open>
  Claim C4, as amended. \<^verbatim>\<open>deepCopy\<close> returns every primitive as it is and leaves
  the heap as it was. \<^verbatim>\<open>deepCopy1\<close> called on a primitive throws a
  \<^verbatim>\<open>TypeError\<close>; it hands primitives on unchanged only as property values: the
  clone of a record whose property values are all primitives has the same properties.
\<close>
theorem clone_primitive:
  "(is_primitive p \<longrightarrow>
      deepCopy (Suc n) h p = Some (h, p) \<and>
      deepCopy1_fresh (Suc n) h p = Some (Inl TypeError, h)) \<and>
   (get h r = Object ps \<and> (\<forall>(k, x)\<in>set ps. is_primitive x) \<longrightarrow>
      deepCopy1_fresh (Suc n) h (Ref r) = Some (Inr (Ref (length h)), h @ [Object ps]))"
proof (intro conjI impI)
  assume "is_primitive p"
  then show "deepCopy (Suc n) h p = Some (h, p)"
    by (rule deepCopy_Suc_prim)
next
  assume "is_primitive p"
  then show "deepCopy1_fresh (Suc n) h p = Some (Inl TypeError, h)"
    by (simp add: deepCopy1_fresh_def deepCopy1_Suc_prim)
next
  assume "get h r = Object ps \<and> (\<forall>(k, x)\<in>set ps. is_primitive x)"
  then show "deepCopy1_fresh (Suc n) h (Ref r) = Some (Inr (Ref (length h)), h @ [Object ps])"
    by (simp add: deepCopy1_flat_record)
qed

theorem clone_primitive_witness:
  "is_primitive (Str ''a'') \<and>
   deepCopy (Suc 0) [] (Str ''a'') = Some ([], Str ''a'') \<and>
   deepCopy1_fresh (Suc 0) [] (Str ''a'') = Some (Inl TypeError, []) \<and>
   get [Object [(''n'', Number (Fin 0)), (''s'', Str ''a'')]] 0
     = Object [(''n'', Number (Fin 0)), (''s'', Str ''a'')] \<and>
   is_primitive (Number (Fin 0)) \<and>
   deepCopy1_fresh (Suc 0) [Object [(''n'', Number (Fin 0)), (''s'', Str ''a'')]] (Ref 0)
     = Some (Inr (Ref 1), [Object [(''n'', Number (Fin 0)), (''s'', Str ''a'')],
                           Object [(''n'', Number (Fin 0)), (''s'', Str ''a'')]])"
proof -
  let ?ps = "[(''n'', Number (Fin 0)), (''s'', Str ''a'')]"
  have p: "is_primitive (Str ''a'')" by (simp add: is_primitive_def)
  have g: "get [Object ?ps] 0 = Object ?ps" by (simp add: get_def)
  have a: "\<forall>(k, x)\<in>set ?ps. is_primitive x" by (simp add: is_primitive_def)
  from clone_primitive [where p = "Str ''a''" and n = 0 and h = "[]"] p
  have 1: "deepCopy (Suc 0) [] (Str ''a'') = Some ([], Str ''a'') \<and>
      deepCopy1_fresh (Suc 0) [] (Str ''a'') = Some (Inl TypeError, [])" by blast
  from clone_primitive [where n = 0 and h = "[Object ?ps]" and r = 0 and ps = ?ps] g a
  have 2: "deepCopy1_fresh (Suc 0) [Object ?ps] (Ref 0)
      = Some (Inr (Ref (length [Object ?ps])), [Object ?ps] @ [Object ?ps])" by blast
  from p g 1 2 show ?thesis by (simp add: is_primitive_def)
qed

text \<open>
  The claim as stated fails for \<^verbatim>\<open>deepCopy1\<close>: no call of it on the string
  \<^verbatim>\<open>"a"\<close> returns that string.
\<close>

theorem deepCopy1_primitive_counterexample:
  "deepCopy1_fresh (Suc 0) [] (Str ''a'') = Some (Inl TypeError, []) \<and>
   \<not> (\<exists>n h'. deepCopy1_fresh n [] (Str ''a'') = Some (Inr (Str ''a''), h'))"
proof
  have p: "is_primitive (Str ''a'')" by (simp add: is_primitive_def)
  then show "deepCopy1_fresh (Suc 0) [] (Str ''a'') = Some (Inl TypeError, [])"
    by (simp add: deepCopy1_fresh_def deepCopy1_Suc_prim)
  show "\<not> (\<exists>n h'. deepCopy1_fresh n [] (Str ''a'') = Some (Inr (Str ''a''), h'))"
  proof
    assume "\<exists>n h'. deepCopy1_fresh n [] (Str ''a'') = Some (Inr (Str ''a''), h')"
    then obtain n h' where r: "deepCopy1_fresh n [] (Str ''a'') = Some (Inr (Str ''a''), h')"
      by blast
    show False
    proof (cases n)
      case 0
      with r show False by (simp add: deepCopy1_fresh_def deepCopy1.simps)
    next
      case (Suc m)
      from deepCopy1_Suc_prim [OF p, of m "[]" Map.empty] r Suc show False
        by (simp add: deepCopy1_fresh_def)
    qed
  qed
qed

section \<open>The input is not changed\<close>




section \<open>Termination of both clones\<close>



lemma copy_loop_returns:
  assumes fr: "\<And>h v h' v'. f h v = Some (h', v') \<Longrightarrow> prefix h h'"
    and ret: "\<And>h x. prefix g h \<Longrightarrow> x \<in> S \<Longrightarrow> \<exists>r. f h (rd h x) = Some r"
    and a: "length g \<le> a"
  shows "set xs \<subseteq> S \<Longrightarrow> prefix g h \<Longrightarrow> \<exists>h'. copy_loop f rd key a h xs = Some h'"
proof (induction xs arbitrary: h)
  case Nil
  show ?case by simp
next
  case (Cons x xs)
  from ret [OF Cons.prems(2), of x] Cons.prems(1) obtain h1 c where
    step: "f h (rd h x) = Some (h1, c)" by auto
  from fr [OF step] Cons.prems(2) have "prefix g h1"
    by (rule prefix_order.trans [rotated])
  then have "prefix g (store h1 a (key x) c)" using a by (rule prefix_store)
  with Cons.IH [of "store h1 a (key x) c"] Cons.prems(1) step show ?case by simp
qed

lemma bound_all:
  "\<forall>x\<in>set xs. \<exists>N. \<forall>m\<ge>N. Q m x \<Longrightarrow> \<exists>N::nat. \<forall>m\<ge>N. \<forall>x\<in>set xs. Q m x"
proof (induction xs)
  case Nil
  show ?case by simp
next
  case (Cons x xs)
  then obtain N1 N2 where "\<forall>m\<ge>N1. Q m x" "\<forall>m\<ge>N2. \<forall>x\<in>set xs. Q m x" by auto
  then have "\<forall>m\<ge>max N1 N2. \<forall>y\<in>set (x # xs). Q m y" by simp
  then show ?case ..
qed

lemma closed_vals: "closed h \<Longrightarrow> r < length h \<Longrightarrow> x \<in> set (vals_of (h ! r)) \<Longrightarrow> valid h x"
  by (auto simp: closed_def list_all_iff)

lemma kids_vals: "set (kids ob) \<subseteq> set (vals_of ob)"
  by (auto simp: kids_def vals_of_def split: obj.splits)

lemma kids_dangling: "\<not> r < length h \<Longrightarrow> kids (get h r) = []"
  by (simp add: get_def kids_def)

lemma closed_kid: "closed h \<Longrightarrow> Ref c \<in> set (kids (get h p)) \<Longrightarrow> p < length h \<and> c < length h"
proof -
  assume cl: "closed h" and k: "Ref c \<in> set (kids (get h p))"
  then have p: "p < length h" using kids_dangling [of p h] by (cases "p < length h") auto
  then have "Ref c \<in> set (vals_of (h ! p))" using k kids_vals by (auto simp: get_def)
  from closed_vals [OF cl p this] p show ?thesis by (simp add: valid_def)
qed

lemma reach_valid:
  assumes "closed h" "valid h v" "p \<in> reach h v"
  shows "p < length h"
  using assms(3,1,2) by (induction rule: reach.induct) (auto simp: valid_def dest: closed_kid)

lemma finite_clone_edges: "closed h \<Longrightarrow> finite (clone_edges h v)"
proof -
  assume "closed h"
  then have "clone_edges h v \<subseteq> {..<length h} \<times> {..<length h}"
    by (auto simp: clone_edges_def dest: closed_kid)
  then show ?thesis by (rule finite_subset) simp
qed

lemma lookup_kid: "k \<in> set (map fst ps) \<Longrightarrow> lookup ps k \<in> set (map snd ps)"
  using lookup_in [of k ps] by force

lemma deepCopy_returns_ref:
  assumes cl: "closed h0" and va: "valid h0 v0" and ac: "acyclic (clone_edges h0 v0)"
  shows "p \<in> reach h0 v0 \<Longrightarrow>
    \<exists>N. \<forall>m\<ge>N. \<forall>h. prefix h0 h \<longrightarrow> (\<exists>r. deepCopy m h (Ref p) = Some r)"
proof -
  have "wf (clone_edges h0 v0)"
    using finite_clone_edges [OF cl] ac by (rule finite_acyclic_wf)
  then show "p \<in> reach h0 v0 \<Longrightarrow> ?thesis"
  proof (induction p rule: wf_induct_rule)
    case (less p)
    have p: "p < length h0" using cl va less.prems by (rule reach_valid)
    have "\<forall>x\<in>set (kids (get h0 p)).
        \<exists>N. \<forall>m\<ge>N. \<forall>h. prefix h0 h \<longrightarrow> (\<exists>r. deepCopy m h x = Some r)"
    proof
      fix x assume x: "x \<in> set (kids (get h0 p))"
      show "\<exists>N. \<forall>m\<ge>N. \<forall>h. prefix h0 h \<longrightarrow> (\<exists>r. deepCopy m h x = Some r)"
      proof (cases "is_primitive x")
        case True
        then have "\<forall>m\<ge>Suc 0. \<forall>h. prefix h0 h \<longrightarrow> (\<exists>r. deepCopy m h x = Some r)"
          by (auto simp: Suc_le_eq gr0_conv_Suc deepCopy_Suc_prim)
        then show ?thesis ..
      next
        case False
        then obtain c where c: "x = Ref c" by (cases x) (auto simp: is_primitive_def)
        with x less.prems have "(c, p) \<in> clone_edges h0 v0" "c \<in> reach h0 v0"
          by (auto simp: clone_edges_def intro: reach.kid)
        then show ?thesis unfolding c by (rule less.IH)
      qed
    qed
    then obtain N where N: "\<forall>m\<ge>N. \<forall>x\<in>set (kids (get h0 p)).
        \<forall>h. prefix h0 h \<longrightarrow> (\<exists>r. deepCopy m h x = Some r)"
      using bound_all [of "kids (get h0 p)"
          "\<lambda>m x. \<forall>h. prefix h0 h \<longrightarrow> (\<exists>r. deepCopy m h x = Some r)"] by blast
    have "\<exists>r. deepCopy m h (Ref p) = Some r" if m: "Suc N \<le> m" and h: "prefix h0 h" for m h
    proof -
      from m obtain n where n: "m = Suc n" "N \<le> n" by (cases m) auto
      have g: "get h p = get h0 p" using h p by (rule get_prefix)
      have ge: "get hc p = get h0 p" if "prefix h0 hc" for hc using that p by (rule get_prefix)
      have ret: "\<exists>r. deepCopy n hc x = Some r" if "prefix h0 hc" "x \<in> set (kids (get h0 p))" for hc x
        using N n(2) that by blast
      have a: "length h0 \<le> length h" using h by (rule prefix_length_le)
      have h1: "prefix h0 (h @ [ob])" for ob using h by (rule prefix_prefix)
      show ?thesis
      proof (cases "body (get h0 p)")
        case (Array vs)
        have "\<exists>h'. copy_loop (deepCopy n) (\<lambda>_ x. x) (\<lambda>_. Undefined) (length h) (h @ [Array []]) vs
            = Some h'"
          by (rule copy_loop_returns [where S = "set vs" and g = h0])
            (use ret a h1 Array in \<open>auto simp: kids_def dest: deepCopy_frame\<close>)
        then show ?thesis using g Array by (auto simp: n(1) deepCopy_Suc_Array)
      next
        case (Object ps)
        have "\<exists>h'. copy_loop (deepCopy n) (\<lambda>hc k. getProp hc (Ref p) k) Str (length h)
            (h @ [Object []]) (map fst ps) = Some h'"
        proof (rule copy_loop_returns [where S = "set (map fst ps)" and g = h0])
          fix hc k assume hc: "prefix h0 hc" and k: "k \<in> set (map fst ps)"
          have "getProp hc (Ref p) k = lookup ps k"
            using ge [OF hc] Object by (simp add: getProp_def props_def)
          moreover have "lookup ps k \<in> set (kids (get h0 p))"
            using lookup_kid [OF k] Object by (simp add: kids_def)
          ultimately show "\<exists>r. deepCopy n hc (getProp hc (Ref p) k) = Some r"
            using ret [OF hc] by simp
        qed (use a h1 in \<open>auto dest: deepCopy_frame\<close>)
        then show ?thesis using g Object by (auto simp: n(1) deepCopy_Suc_Object)
      next
        case (Map es)
        have "\<exists>h'. copy_loop (deepCopy n) (\<lambda>_ e. snd e) fst (length h) (h @ [Map []]) es = Some h'"
          by (rule copy_loop_returns [where S = "set es" and g = h0])
            (use ret a h1 Map in \<open>auto simp: kids_def dest: deepCopy_frame\<close>)
        then show ?thesis using g Map by (auto simp: n(1) deepCopy_Suc_Map)
      next
        case (Set vs)
        have "\<exists>h'. copy_loop (deepCopy n) (\<lambda>_ x. x) (\<lambda>_. Undefined) (length h) (h @ [Set []]) vs
            = Some h'"
          by (rule copy_loop_returns [where S = "set vs" and g = h0])
            (use ret a h1 Set in \<open>auto simp: kids_def dest: deepCopy_frame\<close>)
        then show ?thesis using g Set by (auto simp: n(1) deepCopy_Suc_Set)
      qed (use g in \<open>simp_all add: n(1) deepCopy_Suc_RegExp deepCopy_Suc_Date deepCopy_Suc_other cloned_def\<close>)
    qed
    then show ?case by blast
  qed
qed












section \<open>Cycles and totality\<close>









lemma ordered_acyclic:
  assumes "\<forall>p<length h. \<forall>c. Ref c \<in> set (kids (h ! p)) \<longrightarrow> p < c"
  shows "acyclic (clone_edges h v)"
proof -
  have "clone_edges h v \<subseteq> less_than\<inverse>"
  proof
    fix e assume e: "e \<in> clone_edges h v"
    obtain c p where cp: "e = (c, p)" by (cases e)
    with e have k: "Ref c \<in> set (kids (get h p))" by (simp add: clone_edges_def)
    then have "p < length h" using kids_dangling [of p h] by (cases "p < length h") auto
    with k assms have "p < c" by (simp add: get_def)
    then show "e \<in> less_than\<inverse>" by (simp add: cp)
  qed
  moreover have "acyclic (less_than\<inverse>)" by (simp add: wf_acyclic)
  ultimately show ?thesis by (rule acyclic_subset [rotated])
qed

text \<open>
  Claim C10. On a heap of values of the data model and an input from which the
  walk of \<^verbatim>\<open>deepCopy\<close> finds no cycle, \<^verbatim>\<open>deepCopy\<close> returns: some bound on the
  depth of the recursion is enough.
\<close>
theorem deepCopy_terminates_acyclic:
  assumes "data_heap h" "valid h v" "acyclic (clone_edges h v)"
  shows "\<exists>n h' c. deepCopy n h v = Some (h', c)"
proof (cases "is_primitive v")
  case True
  then have "deepCopy (Suc 0) h v = Some (h, v)" by (rule deepCopy_Suc_prim)
  then show ?thesis by blast
next
  case False
  then obtain p where p: "v = Ref p" by (cases v) (auto simp: is_primitive_def)
  then have r: "p \<in> reach h v" by (simp add: reach.root)
  have "closed h" using assms(1) by (simp add: data_heap_def)
  from deepCopy_returns_ref [OF this assms(2,3) r] obtain N where
    "\<forall>m\<ge>N. \<forall>hx. prefix h hx \<longrightarrow> (\<exists>r. deepCopy m hx (Ref p) = Some r)" ..
  then obtain r where "deepCopy N h (Ref p) = Some r" by blast
  then show ?thesis unfolding p by (cases r) blast
qed

theorem deepCopy_terminates_acyclic_witness:
  "data_heap [Array [Ref 1, Ref 1, Null], Object [(''d'', Ref 2)], Date (Fin 0)] \<and>
   valid [Array [Ref 1, Ref 1, Null], Object [(''d'', Ref 2)], Date (Fin 0)] (Ref 0) \<and>
   acyclic (clone_edges [Array [Ref 1, Ref 1, Null], Object [(''d'', Ref 2)], Date (Fin 0)] (Ref 0)) \<and>
   (\<exists>n h' c. deepCopy n [Array [Ref 1, Ref 1, Null], Object [(''d'', Ref 2)], Date (Fin 0)] (Ref 0)
      = Some (h', c))"
proof -
  let ?h = "[Array [Ref 1, Ref 1, Null], Object [(''d'', Ref 2)], Date (Fin 0)]"
  have d: "data_heap ?h"
    by (simp add: data_heap_def closed_def vals_of_def valid_def data_obj_def)
  have v: "valid ?h (Ref 0)" by (simp add: valid_def)
  have a: "acyclic (clone_edges ?h (Ref 0))"
    by (rule ordered_acyclic) (auto simp: less_Suc_eq kids_def)
  from deepCopy_terminates_acyclic [OF d v a] d v a show ?thesis by blast
qed





section \<open>A clone equals its original\<close>

































end
